theory Spec2Isabelle
  imports Main "HOL-Library.AList" "HOL-Library.Char_ord" "HOL-Library.List_Lexorder"
begin

section \<open>JavaScript maps and falsy defaults\<close>

text \<open>
  A JavaScript \<open>Map\<close> keeps its keys in insertion order; \<open>set\<close> on a key that is
  present replaces the value in place and \<open>set\<close> on a new key appends it. That is
  \<open>AList.update\<close> on an association list; \<open>get\<close> is \<open>map_of\<close>, \<open>has\<close> is
  membership in the key list, \<open>delete\<close> is \<open>AList.delete\<close>.
  Counters are the non-negative integers of the spec's data model.
\<close>

type_synonym clock_entries = "(string \<times> nat) list"

text \<open>\<open>new Map(array)\<close>: the pairs are set one after the other.\<close>

definition Map_from :: "('k \<times> 'v) list \<Rightarrow> ('k \<times> 'v) list" where
  "Map_from arr = foldl (\<lambda>m kv. AList.update (fst kv) (snd kv) m) [] arr"

text \<open>\<open>m.get(k) || 0\<close>: a missing entry (and a stored 0) reads as 0.\<close>

definition get_or0 :: "clock_entries \<Rightarrow> string \<Rightarrow> nat" where
  "get_or0 m k = (case map_of m k of None \<Rightarrow> 0 | Some t \<Rightarrow> t)"

section \<open>VectorClockManager (frontend/script.js, lines 2-128)\<close>

record VectorClockManager =
  vc_userId :: string
  clock :: clock_entries

definition new_VectorClockManager :: "string \<Rightarrow> VectorClockManager" where
  "new_VectorClockManager userId = \<lparr>vc_userId = userId, clock = AList.update userId 0 []\<rparr>"

definition addUser :: "string \<Rightarrow> VectorClockManager \<Rightarrow> VectorClockManager" where
  "addUser userId this =
     (if userId \<notin> fst ` set (clock this)
      then this\<lparr>clock := AList.update userId 0 (clock this)\<rparr>
      else this)"

definition getClockArray :: "VectorClockManager \<Rightarrow> clock_entries" where
  "getClockArray this = clock this"

definition increment :: "VectorClockManager \<Rightarrow> clock_entries \<times> VectorClockManager" where
  "increment this =
     (let current = get_or0 (clock this) (vc_userId this);
          this' = this\<lparr>clock := AList.update (vc_userId this) (current + 1) (clock this)\<rparr>
      in (getClockArray this', this'))"

text \<open>
  \<open>isCausallyReady\<close> is a method of the clock object, so the model takes the object and
  returns it next to the result. The \<open>for\<close> loop over \<open>this.clock.entries()\<close> is
  \<open>ready_loop\<close>: it skips the sender, returns false at the first locally known user whose
  message time exceeds the local time, and returns true when the entries are exhausted.
\<close>

fun ready_loop ::
  "clock_entries \<Rightarrow> clock_entries \<Rightarrow> string \<Rightarrow> VectorClockManager \<Rightarrow> bool \<times> VectorClockManager"
where
  "ready_loop [] messageClock senderId this = (True, this)"
| "ready_loop ((userId, localTime) # rest) messageClock senderId this =
     (if userId = senderId then ready_loop rest messageClock senderId this
      else (let messageTime = get_or0 messageClock userId
            in if messageTime > localTime then (False, this)
               else ready_loop rest messageClock senderId this))"

definition isCausallyReady ::
  "clock_entries \<Rightarrow> string \<Rightarrow> VectorClockManager \<Rightarrow> bool \<times> VectorClockManager"
where
  "isCausallyReady messageClockArray senderId this =
     (let messageClock = Map_from messageClockArray;
          senderLocalTime = get_or0 (clock this) senderId;
          senderMessageTime = get_or0 messageClock senderId
      in if senderMessageTime \<noteq> senderLocalTime + 1 then (False, this)
         else ready_loop (clock this) messageClock senderId this)"

definition canDeliverBufferedMessage ::
  "clock_entries \<Rightarrow> string \<Rightarrow> VectorClockManager \<Rightarrow> bool \<times> VectorClockManager"
where
  "canDeliverBufferedMessage messageClockArray senderId this =
     isCausallyReady messageClockArray senderId this"

text \<open>\<open>syncWithUsers\<close>: every listed user id that is not yet a key is set to 0.\<close>

definition syncWithUsers :: "string list \<Rightarrow> VectorClockManager \<Rightarrow> VectorClockManager" where
  "syncWithUsers userIds this =
     foldl (\<lambda>t uid. if uid \<notin> fst ` set (clock t)
                      then t\<lparr>clock := AList.update uid 0 (clock t)\<rparr> else t) this userIds"

text \<open>
  Modelled from the spec: \<open>VectorClockManager.merge\<close>. The class under
  \<open>frontend/script.js\<close> declares no \<open>merge\<close> method; only its two call sites
  (\<open>handleChatMessage\<close>, \<open>deliverBufferedMessages\<close>) are in the source. Spec 4.1:
  for every \<open>(id, t)\<close> in the snapshot, set the local entry to \<open>max(local[id], t)\<close>;
  unknown ids are implicitly added.
\<close>

definition merge :: "clock_entries \<Rightarrow> VectorClockManager \<Rightarrow> VectorClockManager" where
  "merge snapshot this =
     this\<lparr>clock := foldl (\<lambda>c kt. AList.update (fst kt) (max (get_or0 c (fst kt)) (snd kt)) c)
                         (clock this) snapshot\<rparr>"

text \<open>
  The readiness predicate as section 4.1 of the spec words it: the sender's entry is the
  next tick, and every other participant of either map has a message entry that is at
  most the local entry, missing entries read as 0.
\<close>

definition spec_ready :: "clock_entries \<Rightarrow> clock_entries \<Rightarrow> string \<Rightarrow> bool" where
  "spec_ready localClock messageClock senderId =
     (get_or0 messageClock senderId = get_or0 localClock senderId + 1 \<and>
      list_all (\<lambda>p. p = senderId \<or> get_or0 messageClock p \<le> get_or0 localClock p)
        (map fst messageClock @ map fst localClock))"

section \<open>Messages\<close>

text \<open>
  \<open>metadata\<close> carries the simulation hints of a chat frame: \<open>simulateDelay\<close> (absent
  reads as false) and \<open>delayMs\<close> (absent is \<open>None\<close>).
\<close>

record metadata =
  simulateDelay :: bool
  delayMs :: "int option"

definition empty_metadata :: metadata where
  "empty_metadata = \<lparr>simulateDelay = False, delayMs = None\<rparr>"

text \<open>The client's message object, built in \<open>handleChatMessage\<close> (lines 1052-1062).\<close>

record message =
  m_id :: string
  m_userId :: string
  m_username :: string
  m_text :: string
  m_vectorClock :: clock_entries
  m_timestamp :: nat
  m_roomId :: string
  m_metadata :: metadata
  m_isOwn :: bool

section \<open>CausalOrderEngine (frontend/script.js, lines 131-266)\<close>

record bufferEntry =
  be_message :: message
  be_receivedAt :: nat
  be_attempts :: nat

record deliveredRecord =
  dr_id :: string
  dr_timestamp :: nat
  dr_deliveredAt :: nat
  dr_waitTime :: "int option"

record engine_stats =
  totalProcessed :: nat
  deliveredImmediately :: nat
  buffered :: nat
  maxBufferSize :: nat

record CausalOrderEngine =
  messageBuffer :: "(string \<times> bufferEntry) list"
  deliveredMessages :: "deliveredRecord list"
  stats :: engine_stats

definition new_CausalOrderEngine :: CausalOrderEngine where
  "new_CausalOrderEngine =
     \<lparr>messageBuffer = [], deliveredMessages = [],
      stats = \<lparr>totalProcessed = 0, deliveredImmediately = 0, buffered = 0, maxBufferSize = 0\<rparr>\<rparr>"

text \<open>The object \<open>processMessage\<close> returns; \<open>reason\<close> is absent on immediate delivery.\<close>

record process_result =
  pr_isCausallyReady :: bool
  pr_messageId :: string
  pr_action :: string
  pr_reason :: "string option"

text \<open>
  \<open>processMessage(message, vectorClock, senderId)\<close>; \<open>now\<close> is the value of
  \<open>Date.now()\<close>. The clock object is only read (see \<open>isCausallyReady_state\<close>), so the
  engine's new state is the only state returned.
\<close>

definition processMessage ::
  "message \<Rightarrow> VectorClockManager \<Rightarrow> string \<Rightarrow> nat \<Rightarrow> CausalOrderEngine
     \<Rightarrow> process_result \<times> CausalOrderEngine"
where
  "processMessage msg vectorClock senderId now this =
     (let st1 = (stats this)\<lparr>totalProcessed := totalProcessed (stats this) + 1\<rparr>;
          isReady = fst (isCausallyReady (m_vectorClock msg) senderId vectorClock)
      in if isReady then
           (\<lparr>pr_isCausallyReady = True, pr_messageId = m_id msg,
             pr_action = ''deliver_immediately'', pr_reason = None\<rparr>,
            this\<lparr>stats := st1\<lparr>deliveredImmediately := deliveredImmediately st1 + 1\<rparr>,
                 deliveredMessages := deliveredMessages this @
                   [\<lparr>dr_id = m_id msg, dr_timestamp = m_timestamp msg,
                     dr_deliveredAt = now, dr_waitTime = None\<rparr>]\<rparr>)
         else
           (let buf = AList.update (m_id msg)
                        \<lparr>be_message = msg, be_receivedAt = now, be_attempts = 0\<rparr>
                        (messageBuffer this);
                st2 = st1\<lparr>buffered := buffered st1 + 1\<rparr>
            in (\<lparr>pr_isCausallyReady = False, pr_messageId = m_id msg,
                 pr_action = ''buffered'',
                 pr_reason = Some ''waiting_for_causal_dependencies''\<rparr>,
                this\<lparr>stats := st2\<lparr>maxBufferSize := max (maxBufferSize st2) (length buf)\<rparr>,
                     messageBuffer := buf\<rparr>)))"

text \<open>An element of the array \<open>checkBufferedMessages\<close> returns.\<close>

record readyMessage =
  rm_messageId :: string
  rm_message :: message
  rm_receivedAt :: nat
  rm_attempts :: nat
  rm_waitTime :: int

text \<open>Whether a buffer entry passes \<open>canDeliverBufferedMessage\<close> at a clock.\<close>

definition entry_ready :: "VectorClockManager \<Rightarrow> bufferEntry \<Rightarrow> bool" where
  "entry_ready vectorClock bufferEntry =
     fst (canDeliverBufferedMessage (m_vectorClock (be_message bufferEntry))
            (m_userId (be_message bufferEntry)) vectorClock)"

text \<open>
  The \<open>for\<close> loop of \<open>checkBufferedMessages\<close> over the buffer in insertion order: a
  ready entry is pushed onto \<open>readyMessages\<close>, any other entry has its \<open>attempts\<close>
  incremented in place. It returns the ready list and the buffer after the pass; \<open>now\<close>
  is the reading of \<open>Date.now()\<close> during the pass.
\<close>

fun check_loop ::
  "(string \<times> bufferEntry) list \<Rightarrow> VectorClockManager \<Rightarrow> nat
     \<Rightarrow> readyMessage list \<times> (string \<times> bufferEntry) list"
where
  "check_loop [] vectorClock now = ([], [])"
| "check_loop ((messageId, bufferEntry) # rest) vectorClock now =
     (let (ready, rest') = check_loop rest vectorClock now
      in if entry_ready vectorClock bufferEntry then
           (\<lparr>rm_messageId = messageId, rm_message = be_message bufferEntry,
             rm_receivedAt = be_receivedAt bufferEntry,
             rm_attempts = be_attempts bufferEntry,
             rm_waitTime = int now - int (be_receivedAt bufferEntry)\<rparr> # ready,
            (messageId, bufferEntry) # rest')
         else
           (ready,
            (messageId, bufferEntry\<lparr>be_attempts := be_attempts bufferEntry + 1\<rparr>) # rest'))"

definition checkBufferedMessages ::
  "VectorClockManager \<Rightarrow> nat \<Rightarrow> CausalOrderEngine \<Rightarrow> readyMessage list \<times> CausalOrderEngine"
where
  "checkBufferedMessages vectorClock now this =
     (let (ready, buf) = check_loop (messageBuffer this) vectorClock now
      in (ready, this\<lparr>messageBuffer := buf\<rparr>))"

text \<open>What \<open>deliverMessage\<close> returns for a buffered id; \<open>null\<close> is \<open>None\<close>.\<close>

record delivered =
  dl_message :: message
  dl_receivedAt :: nat
  dl_attempts :: nat
  dl_waitTime :: int

definition deliverMessage ::
  "string \<Rightarrow> nat \<Rightarrow> CausalOrderEngine \<Rightarrow> delivered option \<times> CausalOrderEngine"
where
  "deliverMessage messageId now this =
     (case map_of (messageBuffer this) messageId of
        None \<Rightarrow> (None, this)
      | Some bufferEntry \<Rightarrow>
          (Some \<lparr>dl_message = be_message bufferEntry,
                 dl_receivedAt = be_receivedAt bufferEntry,
                 dl_attempts = be_attempts bufferEntry,
                 dl_waitTime = int now - int (be_receivedAt bufferEntry)\<rparr>,
           this\<lparr>messageBuffer := AList.delete messageId (messageBuffer this),
                deliveredMessages := deliveredMessages this @
                  [\<lparr>dr_id = messageId, dr_timestamp = m_timestamp (be_message bufferEntry),
                    dr_deliveredAt = now,
                    dr_waitTime = Some (int now - int (be_receivedAt bufferEntry))\<rparr>]\<rparr>))"

section \<open>CausalChatApp: receiving chat frames (frontend/script.js, lines 1029-1109, 1269-1315)\<close>

record user =
  u_id :: string
  u_username :: string
  u_joinedAt :: nat
  u_vectorClock :: clock_entries

text \<open>
  The order in which the handler calls the clock, the engine and the presentation is what
  the spec constrains, so the model keeps a log of these calls: \<open>EvMerge\<close> for
  \<open>vectorClock.merge\<close>, \<open>EvProcess\<close> for the readiness decision of
  \<open>causalEngine.processMessage\<close>, \<open>EvDisplay\<close> for \<open>displayMessage\<close> (the hand-over to
  presentation), \<open>EvBuffer\<close> for \<open>bufferMessage\<close> and \<open>EvCheckBuffered\<close> for a
  re-evaluation of the buffer by \<open>checkBufferedMessages\<close>.
\<close>

datatype event =
    EvMerge clock_entries
  | EvProcess string bool
  | EvDisplay string
  | EvBuffer string
  | EvCheckBuffered

record CausalChatApp =
  app_userId :: "string option"
  vectorClock :: "VectorClockManager option"
  causalEngine :: CausalOrderEngine
  currentRoom :: string
  users :: "(string \<times> user) list"
  messages :: "message list"
  bufferedMessages :: "message list"
  trace :: "event list"

text \<open>
  A decoded \<open>chat\<close> frame. Every field of the JSON object may be absent; \<open>x || d\<close>
  takes \<open>d\<close> when \<open>x\<close> is absent, the empty string or 0.
\<close>

record chat_data =
  cd_id :: "string option"
  cd_userId :: "string option"
  cd_username :: "string option"
  cd_text :: "string option"
  cd_vectorClock :: "clock_entries option"
  cd_timestamp :: "nat option"
  cd_roomId :: "string option"
  cd_metadata :: "metadata option"

definition str_or :: "string option \<Rightarrow> string \<Rightarrow> string" where
  "str_or s d = (case s of None \<Rightarrow> d | Some v \<Rightarrow> if v = [] then d else v)"

definition nat_or :: "nat option \<Rightarrow> nat \<Rightarrow> nat" where
  "nat_or n d = (case n of None \<Rightarrow> d | Some v \<Rightarrow> if v = 0 then d else v)"

definition stamped_clock :: "chat_data \<Rightarrow> clock_entries" where
  "stamped_clock data = (case cd_vectorClock data of None \<Rightarrow> [] | Some c \<Rightarrow> c)"

definition displayMessage :: "message \<Rightarrow> CausalChatApp \<Rightarrow> CausalChatApp" where
  "displayMessage msg this =
     this\<lparr>messages := messages this @ [msg], trace := trace this @ [EvDisplay (m_id msg)]\<rparr>"

definition bufferMessage :: "message \<Rightarrow> CausalChatApp \<Rightarrow> CausalChatApp" where
  "bufferMessage msg this =
     this\<lparr>bufferedMessages := bufferedMessages this @ [msg],
          trace := trace this @ [EvBuffer (m_id msg)]\<rparr>"

text \<open>\<open>if (this.vectorClock) this.vectorClock.merge(c)\<close>.\<close>

definition merge_into_clock :: "clock_entries \<Rightarrow> CausalChatApp \<Rightarrow> CausalChatApp" where
  "merge_into_clock c this =
     (case vectorClock this of
        None \<Rightarrow> this
      | Some vc \<Rightarrow> this\<lparr>vectorClock := Some (merge c vc), trace := trace this @ [EvMerge c]\<rparr>)"

text \<open>\<open>findIndex\<close> and \<open>splice(index, 1)\<close>: the first element that matches is removed.\<close>

fun remove_first :: "('a \<Rightarrow> bool) \<Rightarrow> 'a list \<Rightarrow> 'a list" where
  "remove_first P [] = []"
| "remove_first P (x # xs) = (if P x then xs else x # remove_first P xs)"

text \<open>The body of the \<open>forEach\<close> in \<open>deliverBufferedMessages\<close>, for one ready message.\<close>

definition deliver_one :: "nat \<Rightarrow> CausalChatApp \<Rightarrow> string \<Rightarrow> CausalChatApp" where
  "deliver_one now this messageId =
     (case deliverMessage messageId now (causalEngine this) of
        (None, eng) \<Rightarrow> this
      | (Some d, eng) \<Rightarrow>
          (let a1 = displayMessage (dl_message d) (this\<lparr>causalEngine := eng\<rparr>);
               a2 = a1\<lparr>bufferedMessages :=
                         remove_first (\<lambda>m. m_id m = messageId) (bufferedMessages a1)\<rparr>
           in merge_into_clock (m_vectorClock (dl_message d)) a2))"

definition deliverBufferedMessages :: "nat \<Rightarrow> CausalChatApp \<Rightarrow> CausalChatApp" where
  "deliverBufferedMessages now this =
     (case vectorClock this of
        None \<Rightarrow> this
      | Some vc \<Rightarrow>
          (let (readyMessages, eng) = checkBufferedMessages vc now (causalEngine this);
               a1 = this\<lparr>causalEngine := eng, trace := trace this @ [EvCheckBuffered]\<rparr>
           in foldl (deliver_one now) a1 (map rm_messageId readyMessages)))"

text \<open>Lines 1037-1050: an unknown sender is added to \<open>users\<close> and to the clock.\<close>

definition ensure_sender :: "nat \<Rightarrow> string \<Rightarrow> string \<Rightarrow> CausalChatApp \<Rightarrow> CausalChatApp" where
  "ensure_sender now uid uname this =
     (if uid \<notin> fst ` set (users this)
      then this\<lparr>users := AList.update uid
                    \<lparr>u_id = uid, u_username = uname, u_joinedAt = now, u_vectorClock = []\<rparr>
                    (users this),
                vectorClock := map_option (addUser uid) (vectorClock this)\<rparr>
      else this)"

text \<open>Lines 1052-1062; \<open>fresh\<close> is the id generated when the frame carries none.\<close>

definition build_message ::
  "nat \<Rightarrow> string \<Rightarrow> string \<Rightarrow> string \<Rightarrow> string \<Rightarrow> chat_data \<Rightarrow> CausalChatApp \<Rightarrow> message"
where
  "build_message now fresh uid uname txt data this =
     \<lparr>m_id = str_or (cd_id data) fresh,
      m_userId = uid,
      m_username = uname,
      m_text = txt,
      m_vectorClock = stamped_clock data,
      m_timestamp = nat_or (cd_timestamp data) now,
      m_roomId = str_or (cd_roomId data) (currentRoom this),
      m_metadata = (case cd_metadata data of None \<Rightarrow> empty_metadata | Some md \<Rightarrow> md),
      m_isOwn = (Some uid = app_userId this)\<rparr>"

text \<open>
  How a call of \<open>handleChatMessage\<close> ends: \<open>Rejected\<close> is the early return on a frame
  without user id or name; \<open>Threw\<close> is a \<open>TypeError\<close> (a frame without text at line 1067,
  or no clock object when \<open>processMessage\<close> dereferences it), which \<open>handleMessage\<close>
  catches and which leaves the mutations made so far in place.
\<close>

datatype handled = Rejected | Threw | Delivered | Buffered

text \<open>Lines 1073-1106, once the message object is built.\<close>

definition merge_then_process ::
  "nat \<Rightarrow> string \<Rightarrow> message \<Rightarrow> CausalChatApp \<Rightarrow> handled \<times> CausalChatApp"
where
  "merge_then_process now uid msg this =
     (let a2 = merge_into_clock (m_vectorClock msg) this
      in case vectorClock a2 of
           None \<Rightarrow>
             (Threw,
              a2\<lparr>causalEngine := (causalEngine a2)
                    \<lparr>stats := (stats (causalEngine a2))
                       \<lparr>totalProcessed := totalProcessed (stats (causalEngine a2)) + 1\<rparr>\<rparr>\<rparr>)
         | Some vc \<Rightarrow>
             (let (result, eng) = processMessage msg vc uid now (causalEngine a2);
                  a3 = a2\<lparr>causalEngine := eng,
                          trace := trace a2 @ [EvProcess (m_id msg) (pr_isCausallyReady result)]\<rparr>
              in if pr_isCausallyReady result
                 then (Delivered, deliverBufferedMessages now (displayMessage msg a3))
                 else (Buffered, bufferMessage msg a3)))"

definition handleChatMessage ::
  "nat \<Rightarrow> string \<Rightarrow> chat_data \<Rightarrow> CausalChatApp \<Rightarrow> handled \<times> CausalChatApp"
where
  "handleChatMessage now fresh data this =
     (case (cd_userId data, cd_username data) of
        (Some uid, Some uname) \<Rightarrow>
          if uid = [] \<or> uname = [] then (Rejected, this)
          else (let a1 = ensure_sender now uid uname this
                in case cd_text data of
                     None \<Rightarrow> (Threw, a1)
                   | Some txt \<Rightarrow>
                       merge_then_process now uid
                         (build_message now fresh uid uname txt data a1) a1)
      | _ \<Rightarrow> (Rejected, this))"

section \<open>ChatServer (frontend/script.js, lines 1848-2259)\<close>

text \<open>
  A connection is its WebSocket; the model names it by a number, the key of the
  \<open>clients\<close> map. \<open>c_readyState\<close> is \<open>ws.readyState\<close> (1 is open).
\<close>

record client =
  c_id :: string
  c_username :: "string option"
  c_roomId :: string
  c_joinedAt :: nat
  c_vectorClock :: "clock_entries option"
  c_readyState :: nat

text \<open>\<open>room_users\<close> is the room's \<open>users\<close> set, in insertion order.\<close>

record room =
  room_id :: string
  room_name :: string
  room_users :: "string list"
  room_created :: nat

text \<open>The chat message the server builds in \<open>handleChat\<close> (lines 2023-2033).\<close>

record chat_message =
  cm_id :: string
  cm_userId :: string
  cm_username :: "string option"
  cm_text :: "string option"
  cm_vectorClock :: clock_entries
  cm_timestamp :: nat
  cm_roomId :: string
  cm_metadata :: metadata

record user_info =
  ui_id :: string
  ui_username :: string
  ui_joinedAt :: nat
  ui_vectorClock :: clock_entries

record user_stats =
  messagesSent :: nat
  messagesReceived :: nat
  joinCount :: nat

text \<open>The frames the server sends.\<close>

datatype frame =
    FUserList "user_info list" nat
  | FSystem string nat "string option"
  | FJoinSuccess room "user_info list" nat
  | FChat chat_message
  | FHistory "chat_message list" nat
  | FMessageDelivered string nat

text \<open>A pending \<open>setTimeout\<close> callback of \<open>handleChat\<close>: the broadcast it will make.\<close>

record timer =
  t_delay :: int
  t_roomId :: string
  t_message :: chat_message
  t_excludeWs :: nat

text \<open>
  The server's maps, the log \<open>sent\<close> of the calls of \<open>ws.send\<close> in the order they are
  made (socket and frame), and the timers scheduled and not yet fired.
\<close>

record ChatServer =
  clients :: "(nat \<times> client) list"
  rooms :: "(string \<times> room) list"
  messageHistory :: "(string \<times> chat_message list) list"
  userStats :: "(string \<times> user_stats) list"
  sent :: "(nat \<times> frame) list"
  timers :: "timer list"

definition room_history :: "ChatServer \<Rightarrow> string \<Rightarrow> chat_message list" where
  "room_history this roomId =
     (case map_of (messageHistory this) roomId of None \<Rightarrow> [] | Some h \<Rightarrow> h)"

definition getRoomUsers :: "string \<Rightarrow> ChatServer \<Rightarrow> user_info list" where
  "getRoomUsers roomId this =
     concat (map (\<lambda>(ws, c).
        case c_username c of
          None \<Rightarrow> []
        | Some uname \<Rightarrow>
            if c_roomId c = roomId \<and> uname \<noteq> []
            then [\<lparr>ui_id = c_id c, ui_username = uname, ui_joinedAt = c_joinedAt c,
                   ui_vectorClock = (case c_vectorClock c of None \<Rightarrow> [] | Some vc \<Rightarrow> vc)\<rparr>]
            else []) (clients this))"

definition broadcastToRoom :: "string \<Rightarrow> frame \<Rightarrow> nat option \<Rightarrow> ChatServer \<Rightarrow> ChatServer" where
  "broadcastToRoom roomId fr excludeWs this =
     (case map_of (rooms this) roomId of
        None \<Rightarrow> this
      | Some r \<Rightarrow>
          this\<lparr>sent := sent this @
             map (\<lambda>(ws, c). (ws, fr))
               (filter (\<lambda>(ws, c). c_roomId c = roomId \<and> Some ws \<noteq> excludeWs \<and> c_readyState c = 1)
                  (clients this))\<rparr>)"

definition broadcastUserList :: "string \<Rightarrow> nat \<Rightarrow> ChatServer \<Rightarrow> ChatServer" where
  "broadcastUserList roomId now this =
     broadcastToRoom roomId (FUserList (getRoomUsers roomId this) now) None this"

definition show_username :: "string option \<Rightarrow> string" where
  "show_username u = (case u of None \<Rightarrow> ''undefined'' | Some n \<Rightarrow> n)"

record join_data =
  jd_username :: "string option"
  jd_roomId :: "string option"

text \<open>
  Lines 1950-1966 of \<open>handleJoin\<close>: the loop over \<open>this.clients\<close> that copies, for every
  other connection whose \<open>roomId\<close> is the joined room's, that connection's own entry
  (0 when absent) into the new clock; then the joiner's own entry is set to 0.
\<close>

definition join_step :: "string \<Rightarrow> string \<Rightarrow> clock_entries \<Rightarrow> nat \<times> client \<Rightarrow> clock_entries" where
  "join_step roomId selfId vc wc =
     (let existingClient = snd wc
      in case c_vectorClock existingClient of
           None \<Rightarrow> vc
         | Some evc \<Rightarrow>
             if c_roomId existingClient = roomId \<and> c_id existingClient \<noteq> selfId
             then AList.update (c_id existingClient) (get_or0 evc (c_id existingClient)) vc
             else vc)"

definition join_clock :: "string \<Rightarrow> string \<Rightarrow> (nat \<times> client) list \<Rightarrow> clock_entries" where
  "join_clock roomId selfId cs = AList.update selfId 0 (foldl (join_step roomId selfId) [] cs)"

text \<open>
  \<open>handleJoin(client, data)\<close>; \<open>ws\<close> is the key under which \<open>client\<close> is stored in
  \<open>this.clients\<close>, so the mutations of the client object show in the map.
\<close>

definition handleJoin :: "nat \<Rightarrow> nat \<Rightarrow> client \<Rightarrow> join_data \<Rightarrow> ChatServer \<Rightarrow> ChatServer" where
  "handleJoin now ws cl data this =
     (let c1 = cl\<lparr>c_username := jd_username data, c_roomId := str_or (jd_roomId data) ''main''\<rparr>;
          s1 = this\<lparr>clients := AList.update ws c1 (clients this)\<rparr>
      in case map_of (rooms s1) (c_roomId c1) of
           None \<Rightarrow> s1
         | Some r \<Rightarrow>
             (let r1 = r\<lparr>room_users := (if c_id c1 \<in> set (room_users r) then room_users r
                                         else room_users r @ [c_id c1])\<rparr>;
                  s2 = s1\<lparr>rooms := AList.update (c_roomId c1) r1 (rooms s1)\<rparr>;
                  c2 = c1\<lparr>c_vectorClock :=
                            Some (join_clock (c_roomId c1) (c_id c1)
                                    (AList.update ws (c1\<lparr>c_vectorClock := Some []\<rparr>) (clients s2)))\<rparr>;
                  s3 = s2\<lparr>clients := AList.update ws c2 (clients s2)\<rparr>;
                  s4 = broadcastUserList (c_roomId c2) now s3;
                  s5 = broadcastToRoom (c_roomId c2)
                         (FSystem (show_username (c_username c2) @ '' joined the chat'') now
                            (Some (c_id c2))) None s4
              in s5\<lparr>sent := sent s5 @
                   [(ws, FJoinSuccess r1 (getRoomUsers (c_roomId c2) s5)
                           (length (room_history s5 (c_roomId c2))))]\<rparr>))"

record chat_frame =
  cf_text :: "string option"
  cf_vectorClock :: "clock_entries option"
  cf_metadata :: "metadata option"

definition updateUserStats_messagesSent :: "string \<Rightarrow> ChatServer \<Rightarrow> ChatServer" where
  "updateUserStats_messagesSent uid this =
     (let st = (case map_of (userStats this) uid of
                  None \<Rightarrow> \<lparr>messagesSent = 0, messagesReceived = 0, joinCount = 1\<rparr>
                | Some x \<Rightarrow> x)
      in this\<lparr>userStats := AList.update uid (st\<lparr>messagesSent := messagesSent st + 1\<rparr>)
                               (userStats this)\<rparr>)"

text \<open>The delay handed to \<open>setTimeout\<close>: \<open>data.metadata.delayMs || 1000\<close>.\<close>

definition timeout_delay :: "metadata \<Rightarrow> int" where
  "timeout_delay md = (case delayMs md of None \<Rightarrow> 1000 | Some d \<Rightarrow> if d = 0 then 1000 else d)"

text \<open>
  Lines 2008-2019 of \<open>handleChat\<close>: a client without a clock gets \<open>{id: 0}\<close>, then the
  sender's own entry is incremented; the result is the clock stored and stamped.
\<close>

definition sender_clock :: "client \<Rightarrow> clock_entries" where
  "sender_clock cl =
     (let vc0 = (case c_vectorClock cl of
                   None \<Rightarrow> AList.update (c_id cl) 0 []
                 | Some vc \<Rightarrow> vc)
      in AList.update (c_id cl) (get_or0 vc0 (c_id cl) + 1) vc0)"

text \<open>
  Lines 2023-2033: the message object; \<open>now\<close> is \<open>Date.now()\<close> and \<open>mid\<close> the id that
  \<open>uuidv4()\<close> returns.
\<close>

definition stamp_message :: "nat \<Rightarrow> string \<Rightarrow> client \<Rightarrow> chat_frame \<Rightarrow> chat_message" where
  "stamp_message now mid cl data =
     \<lparr>cm_id = mid, cm_userId = c_id cl, cm_username = c_username cl,
      cm_text = cf_text data, cm_vectorClock = sender_clock cl, cm_timestamp = now,
      cm_roomId = c_roomId cl,
      cm_metadata = (case cf_metadata data of None \<Rightarrow> empty_metadata | Some m \<Rightarrow> m)\<rparr>"

text \<open>\<open>handleChat(client, data)\<close>.\<close>

definition handleChat ::
  "nat \<Rightarrow> string \<Rightarrow> nat \<Rightarrow> client \<Rightarrow> chat_frame \<Rightarrow> ChatServer \<Rightarrow> ChatServer"
where
  "handleChat now mid ws cl data this =
     (let roomId = c_roomId cl
      in case map_of (rooms this) roomId of
           None \<Rightarrow> this
         | Some r \<Rightarrow>
             (let c1 = cl\<lparr>c_vectorClock := Some (sender_clock cl)\<rparr>;
                  s1 = this\<lparr>clients := AList.update ws c1 (clients this)\<rparr>;
                  msg = stamp_message now mid cl data;
                  s2 = s1\<lparr>messageHistory :=
                            AList.update roomId (room_history s1 roomId @ [msg])
                              (messageHistory s1)\<rparr>;
                  s3 = updateUserStats_messagesSent (c_id cl) s2;
                  s4 = (if simulateDelay (cm_metadata msg)
                        then s3\<lparr>timers := timers s3 @
                               [\<lparr>t_delay = timeout_delay (cm_metadata msg), t_roomId = roomId,
                                 t_message = msg, t_excludeWs = ws\<rparr>]\<rparr>
                        else broadcastToRoom roomId (FChat msg) (Some ws) s3)
              in s4\<lparr>sent := sent s4 @ [(ws, FMessageDelivered mid now)]\<rparr>))"

text \<open>A timer of \<open>handleChat\<close> fires: the deferred broadcast is made.\<close>

definition fire_timer :: "timer \<Rightarrow> ChatServer \<Rightarrow> ChatServer" where
  "fire_timer t this =
     broadcastToRoom (t_roomId t) (FChat (t_message t)) (Some (t_excludeWs t))
       (this\<lparr>timers := remove1 t (timers this)\<rparr>)"

text \<open>\<open>sendHistory(client)\<close>; \<open>history.slice(-50)\<close> is the last 50 elements, or all.\<close>

definition sendHistory :: "nat \<Rightarrow> client \<Rightarrow> ChatServer \<Rightarrow> ChatServer" where
  "sendHistory ws cl this =
     (let history = room_history this (c_roomId cl)
      in this\<lparr>sent := sent this @
           [(ws, FHistory (drop (length history - 50) history) (length history))]\<rparr>)"

text \<open>
  \<open>handleMessage(ws, rawData)\<close> (lines 1894-1934) for the frame kinds modelled here: it
  looks the client up by its socket, returns when there is none, and dispatches on the
  frame's type.
\<close>

datatype inbound = Join join_data | Chat chat_frame | RequestHistory

definition handleMessage :: "nat \<Rightarrow> string \<Rightarrow> nat \<Rightarrow> inbound \<Rightarrow> ChatServer \<Rightarrow> ChatServer" where
  "handleMessage now mid ws data this =
     (case map_of (clients this) ws of
        None \<Rightarrow> this
      | Some cl \<Rightarrow>
          (case data of
             Join d \<Rightarrow> handleJoin now ws cl d this
           | Chat d \<Rightarrow> handleChat now mid ws cl d this
           | RequestHistory \<Rightarrow> sendHistory ws cl this))"

section \<open>Vocabulary of the properties\<close>

text \<open>
  The connections \<open>handleJoin\<close> copies an entry from: every other connection that has a
  clock and whose \<open>roomId\<close> is the joined room's; and the entry copied, the connection's
  own counter, 0 when absent.
\<close>

definition is_peer :: "string \<Rightarrow> string \<Rightarrow> client \<Rightarrow> bool" where
  "is_peer roomId selfId e =
     (c_roomId e = roomId \<and> c_vectorClock e \<noteq> None \<and> c_id e \<noteq> selfId)"

definition room_peers :: "string \<Rightarrow> string \<Rightarrow> (nat \<times> client) list \<Rightarrow> client list" where
  "room_peers roomId selfId cs = filter (is_peer roomId selfId) (map snd cs)"

definition own_time :: "client \<Rightarrow> nat" where
  "own_time e = get_or0 (case c_vectorClock e of None \<Rightarrow> [] | Some vc \<Rightarrow> vc) (c_id e)"







text \<open>
  The order section 4.2 of the spec asks of one drain pass, in the spec's words:
  happens-before on the stamped clocks, then \<open>received_at\<close> ascending, then
  \<open>message_id\<close> lexicographically. A sequence is in that order when no element is
  preceded by one that should come after it.
\<close>

definition happens_before :: "clock_entries \<Rightarrow> clock_entries \<Rightarrow> bool" where
  "happens_before c1 c2 =
     (list_all (\<lambda>k. get_or0 c1 k \<le> get_or0 c2 k) (map fst c1 @ map fst c2) \<and>
      list_ex (\<lambda>k. get_or0 c1 k < get_or0 c2 k) (map fst c1 @ map fst c2))"

definition spec_precedes :: "readyMessage \<Rightarrow> readyMessage \<Rightarrow> bool" where
  "spec_precedes x y =
     (happens_before (m_vectorClock (rm_message x)) (m_vectorClock (rm_message y)) \<or>
      (\<not> happens_before (m_vectorClock (rm_message y)) (m_vectorClock (rm_message x)) \<and>
       (rm_receivedAt x < rm_receivedAt y \<or>
        (rm_receivedAt x = rm_receivedAt y \<and> rm_messageId x < rm_messageId y))))"

definition spec_ordered :: "readyMessage list \<Rightarrow> bool" where
  "spec_ordered rs = sorted_wrt (\<lambda>x y. \<not> spec_precedes y x) rs"

section \<open>Concrete participants, messages and states\<close>

text \<open>
  The recipient of the examples is Bob (\<open>B\<close>); Alice (\<open>A\<close>), Carol (\<open>C\<close>) and Dave
  (\<open>D\<close>) send.
\<close>

definition ex_msg :: "string \<Rightarrow> string \<Rightarrow> clock_entries \<Rightarrow> message" where
  "ex_msg mid uid c =
     \<lparr>m_id = mid, m_userId = uid, m_username = uid, m_text = ''hello'',
      m_vectorClock = c, m_timestamp = 1, m_roomId = ''main'',
      m_metadata = empty_metadata, m_isOwn = False\<rparr>"

definition ex_clock :: "clock_entries \<Rightarrow> VectorClockManager" where
  "ex_clock c = \<lparr>vc_userId = ''B'', clock = c\<rparr>"

text \<open>
  Two messages of Alice and Carol that both wait for Dave's first message, buffered in
  the same millisecond, the one with the greater id first.
\<close>

definition ex_tie_engine :: CausalOrderEngine where
  "ex_tie_engine =
     snd (processMessage (ex_msg ''a'' ''C'' [(''C'', 1), (''D'', 1)])
            (ex_clock [(''B'', 0), (''A'', 0), (''C'', 0), (''D'', 0)]) ''C'' 7
       (snd (processMessage (ex_msg ''b'' ''A'' [(''A'', 1), (''D'', 1)])
            (ex_clock [(''B'', 0), (''A'', 0), (''C'', 0), (''D'', 0)]) ''A'' 7
          new_CausalOrderEngine)))"

definition ex_app :: "clock_entries \<Rightarrow> CausalOrderEngine \<Rightarrow> message list \<Rightarrow> CausalChatApp" where
  "ex_app c eng buf =
     \<lparr>app_userId = Some ''B'', vectorClock = Some (ex_clock c), causalEngine = eng,
      currentRoom = ''main'', users = [], messages = [], bufferedMessages = buf, trace = []\<rparr>"

definition ex_data :: "string \<Rightarrow> string \<Rightarrow> clock_entries \<Rightarrow> chat_data" where
  "ex_data mid uid c =
     \<lparr>cd_id = Some mid, cd_userId = Some uid, cd_username = Some uid, cd_text = Some ''hello'',
      cd_vectorClock = Some c, cd_timestamp = Some 1, cd_roomId = Some ''main'',
      cd_metadata = None\<rparr>"


text \<open>A server with two open connections that have not joined: \<open>X\<close> and \<open>J\<close>.\<close>

definition ex_client :: "string \<Rightarrow> client" where
  "ex_client uid =
     \<lparr>c_id = uid, c_username = None, c_roomId = ''main'', c_joinedAt = 0,
      c_vectorClock = Some [], c_readyState = 1\<rparr>"

definition ex_room :: room where
  "ex_room = \<lparr>room_id = ''main'', room_name = ''Main Chat Room'', room_users = [],
              room_created = 0\<rparr>"

definition ex_server :: ChatServer where
  "ex_server =
     \<lparr>clients = [(1, ex_client ''X''), (2, ex_client ''J'')],
      rooms = [(''main'', ex_room)],
      messageHistory = [(''main'', [])],
      userStats = [], sent = [], timers = []\<rparr>"

definition ex_join :: join_data where
  "ex_join = \<lparr>jd_username = Some ''joe'', jd_roomId = Some ''main''\<rparr>"

definition ex_chat :: "bool \<Rightarrow> int option \<Rightarrow> chat_frame" where
  "ex_chat sim d =
     \<lparr>cf_text = Some ''hello'', cf_vectorClock = None,
      cf_metadata = Some \<lparr>simulateDelay = sim, delayMs = d\<rparr>\<rparr>"

text \<open>The server after \<open>J\<close> has joined the main room.\<close>

definition ex_joined :: ChatServer where
  "ex_joined = handleMessage 100 ''u0'' 2 (Join ex_join) ex_server"

text \<open>\<open>n\<close> chat frames of \<open>J\<close>, handled one after the other.\<close>

definition chat_n :: "nat \<Rightarrow> ChatServer \<Rightarrow> ChatServer" where
  "chat_n n this =
     foldl (\<lambda>s i. handleMessage i ''u'' 2 (Chat (ex_chat False None)) s) this [0..<n]"

section \<open>Properties of the vector clock\<close>

subsection \<open>Association lists as JavaScript maps\<close>

lemma map_of_foldl_update:
  "map_of (foldl (\<lambda>m kv. AList.update (fst kv) (snd kv) m) acc arr) = map_of acc ++ map_of (rev arr)"
proof (induction arr arbitrary: acc)
  case Nil
  then show ?case by simp
next
  case (Cons a arr)
  have "map_of (AList.update (fst a) (snd a) acc) ++ map_of (rev arr)
      = map_of acc ++ (map_of [a] ++ map_of (rev arr))"
    by (rule ext) (simp add: update_conv' map_add_def split: option.splits)
  then show ?case using Cons.IH by simp
qed

lemma map_of_Map_from: "map_of (Map_from arr) = map_of (rev arr)"
  by (simp add: Map_from_def map_of_foldl_update)

lemma map_of_rev_distinct: "distinct (map fst xs) \<Longrightarrow> map_of (rev xs) = map_of xs"
proof (induction xs)
  case Nil
  then show ?case by simp
next
  case (Cons x xs)
  then have ih: "map_of (rev xs) = map_of xs" and nx: "map_of xs (fst x) = None"
    by (simp_all add: map_of_eq_None_iff)
  show ?case
  proof (rule ext)
    fix k
    show "map_of (rev (x # xs)) k = map_of (x # xs) k"
    proof (cases "k = fst x")
      case True
      then show ?thesis using nx by (cases x) (simp add: ih map_add_def)
    next
      case False
      then show ?thesis by (cases x) (simp add: ih map_add_def split: option.splits)
    qed
  qed
qed

lemma get_or0_Map_from: "distinct (map fst arr) \<Longrightarrow> get_or0 (Map_from arr) k = get_or0 arr k"
  by (simp add: get_or0_def map_of_Map_from map_of_rev_distinct)

lemma get_or0_mem: "get_or0 m k = 0 \<or> (k, get_or0 m k) \<in> set m"
  by (auto simp add: get_or0_def dest: map_of_SomeD split: option.splits)

lemma get_or0_entry: "distinct (map fst m) \<Longrightarrow> (k, t) \<in> set m \<Longrightarrow> get_or0 m k = t"
  by (simp add: get_or0_def)


lemma Map_from_mem: "get_or0 (Map_from arr) k = 0 \<or> (k, get_or0 (Map_from arr) k) \<in> set arr"
proof (cases "map_of (Map_from arr) k")
  case None
  then show ?thesis by (simp add: get_or0_def)
next
  case (Some v)
  then have "map_of (rev arr) k = Some v" by (simp add: map_of_Map_from)
  then have "(k, v) \<in> set arr" using map_of_SomeD by fastforce
  then show ?thesis using Some by (simp add: get_or0_def)
qed

subsection \<open>The readiness check reads the clock and nothing else\<close>

lemma ready_loop_state: "snd (ready_loop es mc s this) = this"
  by (induction es mc s this rule: ready_loop.induct) (simp_all add: Let_def)

lemma isCausallyReady_state: "snd (isCausallyReady arr s this) = this"
  by (simp add: isCausallyReady_def Let_def ready_loop_state)

text \<open>
  Claim C10: evaluating causal readiness is free of side effects on the clock. For every
  local clock, every message clock array and every sender id, \<open>isCausallyReady\<close> and
  \<open>canDeliverBufferedMessage\<close> hand back the clock object they were called on: every
  entry is unchanged and none is added.
\<close>

theorem isCausallyReady_leaves_clock:
  "snd (isCausallyReady messageClockArray senderId this) = this \<and>
   snd (canDeliverBufferedMessage messageClockArray senderId this) = this \<and>
   clock (snd (isCausallyReady messageClockArray senderId this)) = clock this \<and>
   clock (snd (canDeliverBufferedMessage messageClockArray senderId this)) = clock this"
  by (simp add: canDeliverBufferedMessage_def isCausallyReady_def Let_def ready_loop_state)

subsection \<open>What the readiness check computes\<close>

lemma ready_loop_iff:
  "fst (ready_loop es mc s this) = list_all (\<lambda>e. fst e = s \<or> get_or0 mc (fst e) \<le> snd e) es"
  by (induction es mc s this rule: ready_loop.induct) (auto simp add: Let_def)

text \<open>
  The check is true exactly when the sender's message entry is the local entry plus one
  and every entry of the local clock other than the sender's bounds the message's entry
  for that user. The users it compares are those of the local clock.
\<close>

lemma isCausallyReady_iff:
  "fst (isCausallyReady arr s this) =
     (get_or0 (Map_from arr) s = get_or0 (clock this) s + 1 \<and>
      list_all (\<lambda>e. fst e = s \<or> get_or0 (Map_from arr) (fst e) \<le> snd e) (clock this))"
  by (simp add: isCausallyReady_def Let_def ready_loop_iff)

text \<open>
  On maps (no key twice) the check follows from the spec's predicate, and agrees with it
  when every participant of the message clock other than the sender has a local entry.
\<close>

lemma spec_ready_imp_isCausallyReady:
  assumes dm: "distinct (map fst mc)" and dl: "distinct (map fst (clock this))"
      and sp: "spec_ready (clock this) mc s"
  shows "fst (isCausallyReady mc s this)"
proof -
  have "fst e = s \<or> get_or0 mc (fst e) \<le> snd e" if e: "e \<in> set (clock this)" for e
  proof -
    have "snd e = get_or0 (clock this) (fst e)"
      using get_or0_entry[OF dl, of "fst e" "snd e"] e by simp
    moreover have "fst e = s \<or> get_or0 mc (fst e) \<le> get_or0 (clock this) (fst e)"
      using sp e by (auto simp add: spec_ready_def list_all_iff)
    ultimately show ?thesis by simp
  qed
  then show ?thesis using sp dm
    by (simp add: isCausallyReady_iff get_or0_Map_from spec_ready_def list_all_iff)
qed

lemma isCausallyReady_eq_spec_ready_on_known_participants:
  assumes dm: "distinct (map fst mc)" and dl: "distinct (map fst (clock this))"
      and known: "fst ` set mc \<subseteq> insert s (fst ` set (clock this))"
  shows "fst (isCausallyReady mc s this) = spec_ready (clock this) mc s"
proof
  assume r: "fst (isCausallyReady mc s this)"
  then have s1: "get_or0 mc s = get_or0 (clock this) s + 1"
    and all: "\<And>e. e \<in> set (clock this) \<Longrightarrow> fst e = s \<or> get_or0 mc (fst e) \<le> snd e"
    using dm by (auto simp add: isCausallyReady_iff get_or0_Map_from list_all_iff)
  have loc: "p = s \<or> get_or0 mc p \<le> get_or0 (clock this) p" if p: "p \<in> fst ` set (clock this)" for p
  proof -
    from p obtain e where e: "e \<in> set (clock this)" "fst e = p" by auto
    then have "snd e = get_or0 (clock this) p"
      using get_or0_entry[OF dl, of p "snd e"] by auto
    then show ?thesis using all[OF e(1)] e(2) by simp
  qed
  have "p = s \<or> get_or0 mc p \<le> get_or0 (clock this) p" if p: "p \<in> fst ` set mc" for p
    using known p loc by auto
  then show "spec_ready (clock this) mc s" using s1 loc
    by (auto simp add: spec_ready_def list_all_iff)
next
  assume "spec_ready (clock this) mc s"
  then show "fst (isCausallyReady mc s this)" by (rule spec_ready_imp_isCausallyReady[OF dm dl])
qed

text \<open>
  Claim C1: the readiness check is true if and only if the sender's stamped entry is the
  local entry plus one and, for every other participant, also one that appears in the
  stamped clock and is absent from the local clock, the stamped entry is at most the
  local entry, missing entries read as 0. The loop of \<open>isCausallyReady\<close> runs over the
  local clock's entries only: at Bob's clock \<open>{B: 0, A: 0}\<close>, Alice's message stamped
  \<open>[[A, 1], [C, 1]]\<close> depends on a message of Carol that Bob has not seen, the spec's
  predicate is false, and the check returns true.
\<close>

theorem isCausallyReady_skips_unknown_participant:
  "fst (isCausallyReady [(''A'', 1), (''C'', 1)] ''A'' (ex_clock [(''B'', 0), (''A'', 0)])) \<and>
   \<not> spec_ready [(''B'', 0), (''A'', 0)] [(''A'', 1), (''C'', 1)] ''A''"
  by (simp add: isCausallyReady_def Map_from_def get_or0_def spec_ready_def ex_clock_def)

subsection \<open>Merge\<close>

lemma merge_fold_get:
  "distinct (map fst snap) \<Longrightarrow>
   get_or0 (foldl (\<lambda>c kt. AList.update (fst kt) (max (get_or0 c (fst kt)) (snd kt)) c) c snap) k
     = max (get_or0 c k) (get_or0 snap k)"
proof (induction snap arbitrary: c)
  case Nil
  then show ?case by (simp add: get_or0_def)
next
  case (Cons a snap)
  obtain i t where a: "a = (i, t)" by (cases a)
  from Cons.prems a have ni: "i \<notin> fst ` set snap" and d: "distinct (map fst snap)" by auto
  from ni have "map_of snap i = None" by (simp add: map_of_eq_None_iff)
  then show ?case using Cons.IH[OF d] a
    by (auto simp add: get_or0_def update_conv')
qed

lemma merge_fold_keys:
  "fst ` set (foldl (\<lambda>c kt. AList.update (fst kt) (max (get_or0 c (fst kt)) (snd kt)) c) c snap)
     = fst ` set c \<union> fst ` set snap"
  by (induction snap arbitrary: c) (auto simp add: dom_update)

lemma merge_fold_distinct:
  "distinct (map fst c) \<Longrightarrow>
   distinct (map fst (foldl (\<lambda>c kt. AList.update (fst kt) (max (get_or0 c (fst kt)) (snd kt)) c) c snap))"
  by (induction snap arbitrary: c) (auto simp add: distinct_update)

lemma merge_fold_mono:
  "get_or0 c k \<le> get_or0 (foldl (\<lambda>c kt. AList.update (fst kt) (max (get_or0 c (fst kt)) (snd kt)) c) c snap) k"
proof (induction snap arbitrary: c)
  case Nil
  then show ?case by simp
next
  case (Cons a snap)
  have "get_or0 c k \<le> get_or0 (AList.update (fst a) (max (get_or0 c (fst a)) (snd a)) c) k"
    by (simp add: get_or0_def update_conv')
  also have "\<dots> \<le> get_or0 (foldl (\<lambda>c kt. AList.update (fst kt) (max (get_or0 c (fst kt)) (snd kt)) c)
      (AList.update (fst a) (max (get_or0 c (fst a)) (snd a)) c) snap) k"
    by (rule Cons.IH)
  finally show ?case by simp
qed

lemma merge_fold_ge:
  "(k, t) \<in> set snap \<Longrightarrow>
   t \<le> get_or0 (foldl (\<lambda>c kt. AList.update (fst kt) (max (get_or0 c (fst kt)) (snd kt)) c) c snap) k"
proof (induction snap arbitrary: c)
  case Nil
  then show ?case by simp
next
  case (Cons a snap)
  show ?case
  proof (cases "a = (k, t)")
    case True
    have "t \<le> get_or0 (AList.update k (max (get_or0 c k) t) c) k"
      by (simp add: get_or0_def update_conv')
    also have "\<dots> \<le> get_or0 (foldl (\<lambda>c kt. AList.update (fst kt) (max (get_or0 c (fst kt)) (snd kt)) c)
        (AList.update k (max (get_or0 c k) t) c) snap) k"
      by (rule merge_fold_mono)
    finally show ?thesis using True by simp
  next
    case False
    with Cons.prems have "(k, t) \<in> set snap" by simp
    from Cons.IH[OF this] show ?thesis by simp
  qed
qed

text \<open>A merge keeps the clock a map.\<close>

lemma merge_distinct:
  "distinct (map fst (clock this)) \<Longrightarrow> distinct (map fst (clock (merge snapshot this)))"
  by (simp add: merge_def merge_fold_distinct)

text \<open>
  Claim C2: for every merge of a snapshot into a participant's clock, the resulting clock
  maps every id to the maximum of the local and the snapshot's entry (a missing entry
  reads as 0), the ids the snapshot brings are added to the clock's keys, and the
  resulting clock is componentwise at least the clock before. The snapshot is a map: no
  id occurs twice in it.
\<close>

theorem merge_componentwise_max:
  assumes "distinct (map fst snapshot)"
  shows "(\<forall>k. get_or0 (clock (merge snapshot this)) k
               = max (get_or0 (clock this) k) (get_or0 snapshot k)) \<and>
         fst ` set (clock (merge snapshot this)) = fst ` set (clock this) \<union> fst ` set snapshot \<and>
         (\<forall>k. get_or0 (clock this) k \<le> get_or0 (clock (merge snapshot this)) k)"
  using assms by (simp add: merge_def merge_fold_get merge_fold_keys)

text \<open>
  Bob's clock \<open>{B: 0, A: 1}\<close> merged with the snapshot \<open>{A: 2, C: 1}\<close>: Alice's entry
  rises to 2, Carol is added with 1, Bob's entry stays.
\<close>

theorem merge_componentwise_max_witness:
  "distinct (map fst [(''A'', 2), (''C'', 1::nat)]) \<and>
   (\<forall>k. get_or0 (clock (merge [(''A'', 2), (''C'', 1)] (ex_clock [(''B'', 0), (''A'', 1)]))) k
          = max (get_or0 (clock (ex_clock [(''B'', 0), (''A'', 1)])) k)
                (get_or0 [(''A'', 2), (''C'', 1)] k)) \<and>
   clock (merge [(''A'', 2), (''C'', 1)] (ex_clock [(''B'', 0), (''A'', 1)]))
     = [(''B'', 0), (''A'', 2), (''C'', 1)]"
proof -
  have d: "distinct (map fst [(''A'', 2), (''C'', 1::nat)])" by simp
  have c: "clock (merge [(''A'', 2), (''C'', 1)] (ex_clock [(''B'', 0), (''A'', 1)]))
     = [(''B'', 0), (''A'', 2), (''C'', 1)]"
    by (simp add: merge_def ex_clock_def get_or0_def)
  from merge_componentwise_max[OF d, of "ex_clock [(''B'', 0), (''A'', 1)]"] d c
  show ?thesis by blast
qed

text \<open>
  After a clock has merged a stamped clock, the readiness check of that stamped clock is
  false for every sender: the sender's local entry is already at least the stamped one,
  so the stamped entry cannot be the next tick.
\<close>

lemma Map_from_le_merge:
  "get_or0 (Map_from arr) k \<le> get_or0 (clock (merge arr vc)) k"
  using Map_from_mem[of arr k] merge_fold_ge[of k "get_or0 (Map_from arr) k" arr "clock vc"]
  by (auto simp add: merge_def)

lemma not_ready_after_merge: "\<not> fst (isCausallyReady arr s (merge arr vc))"
  using Map_from_le_merge[of arr s vc] by (simp add: isCausallyReady_iff)


section \<open>Properties of the causal order engine\<close>

subsection \<open>Offering a message\<close>

lemma processMessage_outcome:
  "pr_isCausallyReady (fst (processMessage msg vc s now e))
     = fst (isCausallyReady (m_vectorClock msg) s vc)"
  by (simp add: processMessage_def Let_def)

lemma processMessage_reason:
  "pr_reason (fst (processMessage msg vc s now e))
     = (if fst (isCausallyReady (m_vectorClock msg) s vc) then None
        else Some ''waiting_for_causal_dependencies'')"
  by (simp add: processMessage_def Let_def)

lemma processMessage_result:
  "fst (processMessage msg vc s n2 e2) = fst (processMessage msg vc s n1 e1)"
  by (simp add: processMessage_def Let_def)

lemma processMessage_totalProcessed:
  "totalProcessed (stats (snd (processMessage msg vc s now e))) = totalProcessed (stats e) + 1"
  by (simp add: processMessage_def Let_def)

text \<open>
  Alice's second message, not ready at Bob's clock \<open>{B: 0, A: 0}\<close>, is offered twice: the
  second offer changes the engine (it is counted again, and the buffer entry is written
  again) and reports that the message waits for its causal dependencies. Her first
  message, ready at that clock, is offered twice: the second offer delivers it again.
\<close>

theorem processMessage_reoffer_counterexample:
  "snd (processMessage (ex_msg ''m2'' ''A'' [(''A'', 2)]) (ex_clock [(''B'', 0), (''A'', 0)]) ''A'' 20
         (snd (processMessage (ex_msg ''m2'' ''A'' [(''A'', 2)])
                 (ex_clock [(''B'', 0), (''A'', 0)]) ''A'' 10 new_CausalOrderEngine)))
     \<noteq> snd (processMessage (ex_msg ''m2'' ''A'' [(''A'', 2)])
                 (ex_clock [(''B'', 0), (''A'', 0)]) ''A'' 10 new_CausalOrderEngine) \<and>
   pr_reason (fst (processMessage (ex_msg ''m2'' ''A'' [(''A'', 2)])
         (ex_clock [(''B'', 0), (''A'', 0)]) ''A'' 20
         (snd (processMessage (ex_msg ''m2'' ''A'' [(''A'', 2)])
                 (ex_clock [(''B'', 0), (''A'', 0)]) ''A'' 10 new_CausalOrderEngine))))
     = Some ''waiting_for_causal_dependencies'' \<and>
   pr_isCausallyReady (fst (processMessage (ex_msg ''m1'' ''A'' [(''A'', 1)])
         (ex_clock [(''B'', 0), (''A'', 0)]) ''A'' 20
         (snd (processMessage (ex_msg ''m1'' ''A'' [(''A'', 1)])
                 (ex_clock [(''B'', 0), (''A'', 0)]) ''A'' 10 new_CausalOrderEngine)))) \<and>
   map dr_id (deliveredMessages (snd (processMessage (ex_msg ''m1'' ''A'' [(''A'', 1)])
         (ex_clock [(''B'', 0), (''A'', 0)]) ''A'' 20
         (snd (processMessage (ex_msg ''m1'' ''A'' [(''A'', 1)])
                 (ex_clock [(''B'', 0), (''A'', 0)]) ''A'' 10 new_CausalOrderEngine)))))
     = [''m1'', ''m1'']"
  by code_simp

text \<open>
  Claim C4, as amended: \<open>processMessage\<close> has no duplicate suppression. Every call, also
  one whose message id is already in the buffer or already delivered, is counted in
  \<open>totalProcessed\<close> and returns the outcome that readiness at the clock passed decides:
  \<open>deliver_immediately\<close> without a reason, or \<open>buffered\<close> with the reason
  \<open>waiting_for_causal_dependencies\<close>, never \<open>duplicate\<close>. Offering the same message twice
  at the same clock therefore yields the same outcome on both offers.
\<close>

theorem processMessage_no_duplicate_suppression:
  "fst (processMessage msg vc s n2 (snd (processMessage msg vc s n1 e)))
     = fst (processMessage msg vc s n1 e) \<and>
   pr_isCausallyReady (fst (processMessage msg vc s now e))
     = fst (isCausallyReady (m_vectorClock msg) s vc) \<and>
   pr_reason (fst (processMessage msg vc s now e))
     = (if fst (isCausallyReady (m_vectorClock msg) s vc) then None
        else Some ''waiting_for_causal_dependencies'') \<and>
   pr_reason (fst (processMessage msg vc s now e)) \<noteq> Some ''duplicate'' \<and>
   totalProcessed (stats (snd (processMessage msg vc s now e))) = totalProcessed (stats e) + 1"
  using processMessage_result[of msg vc s n2 "snd (processMessage msg vc s n1 e)" n1 e]
  by (simp add: processMessage_outcome processMessage_reason processMessage_totalProcessed)

subsection \<open>One pass over the buffer\<close>


lemma check_loop_ids:
  "map rm_messageId (fst (check_loop buf vc now)) =
     map fst (filter (\<lambda>e. entry_ready vc (snd e)) buf)"
  by (induction buf vc now rule: check_loop.induct) (simp_all add: Let_def case_prod_beta)

lemma check_loop_messages:
  "map (\<lambda>e. (fst e, be_message (snd e))) (snd (check_loop buf vc now)) =
     map (\<lambda>e. (fst e, be_message (snd e))) buf"
  by (induction buf vc now rule: check_loop.induct) (simp_all add: Let_def case_prod_beta)


text \<open>
  At Bob's clock, once Dave's first message is merged, both buffered messages are ready.
  The pass returns \<open>b\<close> before \<open>a\<close>, the order in which they were buffered; they are
  causally incomparable and were received in the same millisecond, so the order of the
  claim puts \<open>a\<close> first.
\<close>

theorem checkBufferedMessages_order_counterexample:
  "map rm_messageId (fst (checkBufferedMessages
       (ex_clock [(''B'', 0), (''A'', 0), (''C'', 0), (''D'', 1)]) 9 ex_tie_engine)) = [''b'', ''a''] \<and>
   \<not> spec_ordered (fst (checkBufferedMessages
       (ex_clock [(''B'', 0), (''A'', 0), (''C'', 0), (''D'', 1)]) 9 ex_tie_engine))"
  by code_simp

text \<open>
  Claim C6, as amended: whenever several buffered messages are ready in one drain pass,
  the returned sequence lists them in the buffer's insertion order, the order in which
  their message ids were first buffered, whatever their stamped clocks, their
  \<open>receivedAt\<close> and their ids; the sequence is a function of the buffer content and the
  clock alone, so the order is deterministic.
\<close>

theorem checkBufferedMessages_insertion_order:
  "map rm_messageId (fst (checkBufferedMessages vc now e)) =
     map fst (filter (\<lambda>entry. entry_ready vc (snd entry)) (messageBuffer e))"
  by (simp add: checkBufferedMessages_def check_loop_ids case_prod_beta)

text \<open>A pass changes no message of the buffer and removes none, it only counts attempts.\<close>

lemma checkBufferedMessages_keeps_messages:
  "map (\<lambda>e. (fst e, be_message (snd e))) (messageBuffer (snd (checkBufferedMessages vc now e))) =
     map (\<lambda>e. (fst e, be_message (snd e))) (messageBuffer e)"
  by (simp add: checkBufferedMessages_def check_loop_messages case_prod_beta)


section \<open>Properties of the chat application's handlers\<close>

subsection \<open>The order of merge, decision and presentation\<close>

lemma trace_deliver_one: "\<exists>ext. trace (deliver_one now a mid) = trace a @ ext"
  by (auto simp add: deliver_one_def displayMessage_def merge_into_clock_def Let_def
      split: option.splits prod.splits)

lemma trace_foldl_deliver_one:
  "\<exists>ext. trace (foldl (deliver_one now) a ids) = trace a @ ext"
proof (induction ids arbitrary: a)
  case Nil
  then show ?case by simp
next
  case (Cons i ids)
  obtain e1 where e1: "trace (deliver_one now a i) = trace a @ e1"
    using trace_deliver_one by blast
  obtain e2 where "trace (foldl (deliver_one now) (deliver_one now a i) ids)
      = trace (deliver_one now a i) @ e2"
    using Cons.IH by blast
  with e1 show ?case by simp
qed

lemma trace_deliverBufferedMessages:
  "\<exists>ext. trace (deliverBufferedMessages now a) = trace a @ ext"
proof (cases "vectorClock a")
  case None
  then show ?thesis by (simp add: deliverBufferedMessages_def)
next
  case (Some vc)
  obtain ready eng where ce: "checkBufferedMessages vc now (causalEngine a) = (ready, eng)"
    by (cases "checkBufferedMessages vc now (causalEngine a)")
  obtain e where "trace (foldl (deliver_one now)
       (a\<lparr>causalEngine := eng, trace := trace a @ [EvCheckBuffered]\<rparr>) (map rm_messageId ready))
     = trace (a\<lparr>causalEngine := eng, trace := trace a @ [EvCheckBuffered]\<rparr>) @ e"
    using trace_foldl_deliver_one by blast
  then show ?thesis using Some ce by (simp add: deliverBufferedMessages_def)
qed

lemma merge_then_process_trace:
  assumes "vectorClock this = Some vc"
  shows "\<exists>rest. trace (snd (merge_then_process now uid msg this)) =
     trace this @ EvMerge (m_vectorClock msg)
       # EvProcess (m_id msg) (fst (merge_then_process now uid msg this) = Delivered) # rest"
proof -
  let ?a2 = "merge_into_clock (m_vectorClock msg) this"
  have a2: "vectorClock ?a2 = Some (merge (m_vectorClock msg) vc)"
    and t2: "trace ?a2 = trace this @ [EvMerge (m_vectorClock msg)]"
    using assms by (simp_all add: merge_into_clock_def)
  obtain result eng where pm:
    "processMessage msg (merge (m_vectorClock msg) vc) uid now (causalEngine ?a2) = (result, eng)"
    by (cases "processMessage msg (merge (m_vectorClock msg) vc) uid now (causalEngine ?a2)")
  let ?a3 = "?a2\<lparr>causalEngine := eng,
      trace := trace ?a2 @ [EvProcess (m_id msg) (pr_isCausallyReady result)]\<rparr>"
  show ?thesis
  proof (cases "pr_isCausallyReady result")
    case True
    obtain e where "trace (deliverBufferedMessages now (displayMessage msg ?a3))
       = trace (displayMessage msg ?a3) @ e"
      using trace_deliverBufferedMessages by blast
    then show ?thesis using True a2 t2 pm
      by (simp add: merge_then_process_def Let_def displayMessage_def)
  next
    case False
    then show ?thesis using a2 t2 pm
      by (simp add: merge_then_process_def Let_def bufferMessage_def)
  qed
qed

lemma ensure_sender_clock:
  "vectorClock this = Some vc \<Longrightarrow> \<exists>vc'. vectorClock (ensure_sender now uid uname this) = Some vc'"
  by (simp add: ensure_sender_def)

lemma ensure_sender_trace: "trace (ensure_sender now uid uname this) = trace this"
  by (simp add: ensure_sender_def)

text \<open>
  Alice's first message, the next tick at Bob's clock \<open>{B: 0, A: 0}\<close>: the handler merges
  the stamped clock, then decides, finds the message not ready and buffers it. The merge
  is made for a message that is not delivered, and before the decision.
\<close>

theorem handleChatMessage_merges_undelivered_counterexample:
  "fst (handleChatMessage 10 ''gen'' (ex_data ''m1'' ''A'' [(''A'', 1)])
          (ex_app [(''B'', 0), (''A'', 0)] new_CausalOrderEngine [])) = Buffered \<and>
   trace (snd (handleChatMessage 10 ''gen'' (ex_data ''m1'' ''A'' [(''A'', 1)])
          (ex_app [(''B'', 0), (''A'', 0)] new_CausalOrderEngine [])))
     = [EvMerge [(''A'', 1)], EvProcess ''m1'' False, EvBuffer ''m1''] \<and>
   map_option clock (vectorClock (snd (handleChatMessage 10 ''gen'' (ex_data ''m1'' ''A'' [(''A'', 1)])
          (ex_app [(''B'', 0), (''A'', 0)] new_CausalOrderEngine []))))
     = Some [(''B'', 0), (''A'', 1)] \<and>
   messages (snd (handleChatMessage 10 ''gen'' (ex_data ''m1'' ''A'' [(''A'', 1)])
          (ex_app [(''B'', 0), (''A'', 0)] new_CausalOrderEngine []))) = []"
  by code_simp

text \<open>
  Claim C3, as amended: for every chat message received (a frame with user id, user name
  and text, at a recipient whose clock object exists), the recipient invokes merge of the
  message's stamped clock first, before the delivery decision is made and whether the
  message is then delivered or buffered; the decision follows, and whatever the handler
  does afterwards, the hand-over to presentation and the re-evaluation of buffered
  messages included, comes after that merge.
\<close>

theorem handleChatMessage_merges_before_decision:
  assumes "cd_userId data = Some uid" and "uid \<noteq> []"
      and "cd_username data = Some uname" and "uname \<noteq> []"
      and "cd_text data = Some txt" and "vectorClock this = Some vc"
  shows "\<exists>rest. trace (snd (handleChatMessage now fresh data this)) =
     trace this @ EvMerge (stamped_clock data)
       # EvProcess (str_or (cd_id data) fresh)
           (fst (handleChatMessage now fresh data this) = Delivered)
       # rest"
proof -
  let ?a1 = "ensure_sender now uid uname this"
  let ?msg = "build_message now fresh uid uname txt data ?a1"
  obtain vc' where "vectorClock ?a1 = Some vc'" using ensure_sender_clock[OF assms(6)] by blast
  from merge_then_process_trace[OF this, of now uid ?msg]
  show ?thesis using assms
    by (simp add: handleChatMessage_def Let_def ensure_sender_trace build_message_def)
qed

theorem handleChatMessage_merges_before_decision_witness:
  "cd_userId (ex_data ''m1'' ''A'' [(''A'', 1)]) = Some ''A'' \<and>
   cd_username (ex_data ''m1'' ''A'' [(''A'', 1)]) = Some ''A'' \<and>
   cd_text (ex_data ''m1'' ''A'' [(''A'', 1)]) = Some ''hello'' \<and>
   vectorClock (ex_app [(''B'', 0), (''A'', 0)] new_CausalOrderEngine [])
     = Some (ex_clock [(''B'', 0), (''A'', 0)]) \<and>
   (\<exists>rest. trace (snd (handleChatMessage 10 ''gen'' (ex_data ''m1'' ''A'' [(''A'', 1)])
               (ex_app [(''B'', 0), (''A'', 0)] new_CausalOrderEngine []))) =
      trace (ex_app [(''B'', 0), (''A'', 0)] new_CausalOrderEngine [])
        @ EvMerge (stamped_clock (ex_data ''m1'' ''A'' [(''A'', 1)]))
        # EvProcess (str_or (cd_id (ex_data ''m1'' ''A'' [(''A'', 1)])) ''gen'')
            (fst (handleChatMessage 10 ''gen'' (ex_data ''m1'' ''A'' [(''A'', 1)])
               (ex_app [(''B'', 0), (''A'', 0)] new_CausalOrderEngine [])) = Delivered)
        # rest)"
proof -
  have h1: "cd_userId (ex_data ''m1'' ''A'' [(''A'', 1)]) = Some ''A''"
    and h2: "cd_username (ex_data ''m1'' ''A'' [(''A'', 1)]) = Some ''A''"
    and h3: "cd_text (ex_data ''m1'' ''A'' [(''A'', 1)]) = Some ''hello''"
    by (simp_all add: ex_data_def)
  have h4: "vectorClock (ex_app [(''B'', 0), (''A'', 0)] new_CausalOrderEngine [])
     = Some (ex_clock [(''B'', 0), (''A'', 0)])"
    by (simp add: ex_app_def)
  have n: "''A'' \<noteq> []" by simp
  from handleChatMessage_merges_before_decision[OF h1 n h2 n h3 h4, of 10 "''gen''"] h1 h2 h3 h4
  show ?thesis by blast
qed

text \<open>
  With the merge made before the decision, the decision is taken at a clock that already
  holds the message's stamp, where the readiness check is false: a call of
  \<open>handleChatMessage\<close> never ends in an immediate delivery.
\<close>

lemma merge_then_process_never_delivers:
  "fst (merge_then_process now uid msg this) \<noteq> Delivered"
proof (cases "vectorClock this")
  case None
  then show ?thesis by (simp add: merge_then_process_def merge_into_clock_def)
next
  case (Some vc)
  have "\<not> pr_isCausallyReady (fst (processMessage msg (merge (m_vectorClock msg) vc) uid now e))" for e
    by (simp add: processMessage_outcome not_ready_after_merge)
  then show ?thesis using Some
    by (simp add: merge_then_process_def merge_into_clock_def Let_def case_prod_beta)
qed

lemma handleChatMessage_never_delivers:
  "fst (handleChatMessage now fresh data this) \<noteq> Delivered"
  by (simp add: handleChatMessage_def Let_def merge_then_process_never_delivers
      split: option.splits)


subsection \<open>The buffer after any sequence of offers and drains\<close>





















section \<open>Properties of the chat server\<close>

subsection \<open>The clock a joining session receives\<close>

lemma join_step_eq:
  "join_step r j vc (w, e) =
     (if is_peer r j e then AList.update (c_id e) (own_time e) vc else vc)"
  by (simp add: join_step_def is_peer_def own_time_def Let_def split: option.splits)

lemma room_peers_Cons:
  "room_peers r j ((w, e) # cs) = (if is_peer r j e then e # room_peers r j cs else room_peers r j cs)"
  by (simp add: room_peers_def)

lemma join_fold_keys:
  "fst ` set (foldl (join_step r j) acc cs) = fst ` set acc \<union> c_id ` set (room_peers r j cs)"
proof (induction cs arbitrary: acc)
  case Nil
  then show ?case by (simp add: room_peers_def)
next
  case (Cons a cs)
  obtain w e where a: "a = (w, e)" by (cases a)
  show ?case
  proof (cases "is_peer r j e")
    case True
    have "fst ` set (foldl (join_step r j) (AList.update (c_id e) (own_time e) acc) cs)
        = fst ` set (AList.update (c_id e) (own_time e) acc) \<union> c_id ` set (room_peers r j cs)"
      by (rule Cons.IH)
    then show ?thesis using True a by (simp add: join_step_eq room_peers_Cons dom_update)
  next
    case False
    then show ?thesis using a Cons.IH[of acc] by (simp add: join_step_eq room_peers_Cons)
  qed
qed

lemma join_fold_untouched:
  "k \<notin> (\<lambda>p. c_id (snd p)) ` set cs \<Longrightarrow>
   map_of (foldl (join_step r j) acc cs) k = map_of acc k"
proof (induction cs arbitrary: acc)
  case Nil
  then show ?case by simp
next
  case (Cons a cs)
  obtain w e where a: "a = (w, e)" by (cases a)
  from Cons.prems a have ne: "k \<noteq> c_id e" and rest: "k \<notin> (\<lambda>p. c_id (snd p)) ` set cs" by auto
  have "map_of (foldl (join_step r j) (join_step r j acc (w, e)) cs) k
      = map_of (join_step r j acc (w, e)) k"
    by (rule Cons.IH[OF rest])
  also have "\<dots> = map_of acc k" using ne by (simp add: join_step_eq update_conv')
  finally show ?case using a by simp
qed

lemma join_fold_value:
  "distinct (map (\<lambda>p. c_id (snd p)) cs) \<Longrightarrow> e \<in> set (room_peers r j cs) \<Longrightarrow>
   map_of (foldl (join_step r j) acc cs) (c_id e) = Some (own_time e)"
proof (induction cs arbitrary: acc)
  case Nil
  then show ?case by (simp add: room_peers_def)
next
  case (Cons a cs)
  obtain w x where a: "a = (w, x)" by (cases a)
  from Cons.prems(1) a have d: "distinct (map (\<lambda>p. c_id (snd p)) cs)"
    and nx: "c_id x \<notin> (\<lambda>p. c_id (snd p)) ` set cs" by simp_all
  show ?case
  proof (cases "e \<in> set (room_peers r j cs)")
    case True
    from Cons.IH[OF d True, of "join_step r j acc (w, x)"] show ?thesis using a by simp
  next
    case False
    with Cons.prems(2) a have ex: "e = x" and px: "is_peer r j x"
      by (simp_all add: room_peers_Cons split: if_splits)
    have "map_of (foldl (join_step r j) (join_step r j acc (w, x)) cs) (c_id x)
        = map_of (join_step r j acc (w, x)) (c_id x)"
      by (rule join_fold_untouched[OF nx])
    also have "\<dots> = Some (own_time x)" using px by (simp add: join_step_eq update_conv')
    finally show ?thesis using a ex by simp
  qed
qed

lemma join_clock_keys:
  "fst ` set (join_clock r j cs) = insert j (c_id ` set (room_peers r j cs))"
  by (simp add: join_clock_def dom_update join_fold_keys)

lemma join_clock_self: "map_of (join_clock r j cs) j = Some 0"
  by (simp add: join_clock_def update_conv')

lemma join_clock_peer:
  assumes d: "distinct (map (\<lambda>p. c_id (snd p)) cs)" and e: "e \<in> set (room_peers r j cs)"
  shows "map_of (join_clock r j cs) (c_id e) = Some (own_time e)"
proof -
  from e have "c_id e \<noteq> j" by (simp add: room_peers_def is_peer_def)
  then show ?thesis using join_fold_value[OF d e, of "[]"]
    by (simp add: join_clock_def update_conv')
qed

text \<open>
  The joiner's own connection is no peer of itself, whatever its fields: replacing it in
  the map changes neither the peers nor the ids.
\<close>

lemma room_peers_update_self:
  "map_of cs ws = Some cl \<Longrightarrow> c_id cl = j \<Longrightarrow> c_id c' = j \<Longrightarrow>
   room_peers r j (AList.update ws c' cs) = room_peers r j cs"
proof (induction cs)
  case Nil
  then show ?case by simp
next
  case (Cons a cs)
  obtain w e where a: "a = (w, e)" by (cases a)
  show ?case
  proof (cases "w = ws")
    case True
    with Cons.prems a have "e = cl" by simp
    then show ?thesis using True a Cons.prems(2,3)
      by (simp add: room_peers_Cons is_peer_def)
  next
    case False
    with Cons.prems a have "map_of cs ws = Some cl" by simp
    from Cons.IH[OF this Cons.prems(2,3)] show ?thesis using False a
      by (simp add: room_peers_Cons)
  qed
qed

lemma ids_update_self:
  "map_of cs ws = Some cl \<Longrightarrow> c_id c' = c_id cl \<Longrightarrow>
   map (\<lambda>p. c_id (snd p)) (AList.update ws c' cs) = map (\<lambda>p. c_id (snd p)) cs"
proof (induction cs)
  case Nil
  then show ?case by simp
next
  case (Cons a cs)
  obtain w e where a: "a = (w, e)" by (cases a)
  show ?case
  proof (cases "w = ws")
    case True
    with Cons.prems a have "e = cl" by simp
    then show ?thesis using True a Cons.prems(2) by simp
  next
    case False
    with Cons.prems a have "map_of cs ws = Some cl" by simp
    from Cons.IH[OF this Cons.prems(2)] show ?thesis using False a by simp
  qed
qed

lemma clients_broadcastToRoom: "clients (broadcastToRoom r f x s) = clients s"
  by (simp add: broadcastToRoom_def split: option.splits)

lemma clients_broadcastUserList: "clients (broadcastUserList r n s) = clients s"
  by (simp add: broadcastUserList_def clients_broadcastToRoom)

lemma handleJoin_client:
  assumes "map_of (rooms this) (str_or (jd_roomId data) ''main'') = Some r"
  shows "map_option c_vectorClock (map_of (clients (handleJoin now ws cl data this)) ws)
     = Some (Some (join_clock (str_or (jd_roomId data) ''main'') (c_id cl)
         (AList.update ws (cl\<lparr>c_username := jd_username data,
              c_roomId := str_or (jd_roomId data) ''main'', c_vectorClock := Some []\<rparr>)
            (clients this))))"
  using assms
  by (simp add: handleJoin_def Let_def update_conv' clients_broadcastToRoom
      clients_broadcastUserList)

text \<open>
  Connection \<open>X\<close> is open and has not joined; its \<open>roomId\<close> is the default \<open>main\<close>.
  When \<open>J\<close> joins the main room, whose member set is empty, \<open>J\<close>'s clock receives an
  entry for \<open>X\<close>, which is no member of the room, before or after the join.
\<close>

theorem handleJoin_clock_counterexample:
  "map_option c_vectorClock (map_of (clients (handleMessage 100 ''u0'' 2 (Join ex_join) ex_server)) 2)
     = Some (Some [(''X'', 0), (''J'', 0)]) \<and>
   map_option room_users (map_of (rooms ex_server) ''main'') = Some [] \<and>
   map_option room_users (map_of (rooms (handleMessage 100 ''u0'' 2 (Join ex_join) ex_server)) ''main'')
     = Some [''J'']"
  by code_simp

text \<open>
  Claim C7, as amended: for every join of a session into an existing room, with session
  ids unique, after the join the session's server-side vector clock maps every other
  connection \<open>c\<close> whose \<open>roomId\<close> is that room's (the room's members, and also the
  connections that have not joined yet, whose \<open>roomId\<close> is the default \<open>main\<close>) to
  \<open>c.clock[c.id]\<close>, 0 when absent, maps the joiner's own id to 0, and contains no other
  entries.
\<close>

theorem handleJoin_clock:
  assumes cl: "map_of (clients this) ws = Some cl"
      and r: "map_of (rooms this) (str_or (jd_roomId data) ''main'') = Some r"
      and d: "distinct (map (\<lambda>p. c_id (snd p)) (clients this))"
  shows "\<exists>vc. map_option c_vectorClock (map_of (clients (handleJoin now ws cl data this)) ws)
                 = Some (Some vc)
     \<and> fst ` set vc = insert (c_id cl)
          (c_id ` set (room_peers (str_or (jd_roomId data) ''main'') (c_id cl) (clients this)))
     \<and> map_of vc (c_id cl) = Some 0
     \<and> (\<forall>e \<in> set (room_peers (str_or (jd_roomId data) ''main'') (c_id cl) (clients this)).
           map_of vc (c_id e) = Some (own_time e))"
proof -
  let ?rid = "str_or (jd_roomId data) ''main''"
  let ?c' = "cl\<lparr>c_username := jd_username data, c_roomId := ?rid, c_vectorClock := Some []\<rparr>"
  let ?cs = "AList.update ws ?c' (clients this)"
  have p: "room_peers ?rid (c_id cl) ?cs = room_peers ?rid (c_id cl) (clients this)"
    using room_peers_update_self[OF cl, of "c_id cl" ?c' ?rid] by simp
  have d': "distinct (map (\<lambda>p. c_id (snd p)) ?cs)"
    using ids_update_self[OF cl, of ?c'] d by simp
  have k: "fst ` set (join_clock ?rid (c_id cl) ?cs)
      = insert (c_id cl) (c_id ` set (room_peers ?rid (c_id cl) (clients this)))"
    using join_clock_keys[of ?rid "c_id cl" ?cs] p by simp
  have v: "\<forall>e \<in> set (room_peers ?rid (c_id cl) (clients this)).
      map_of (join_clock ?rid (c_id cl) ?cs) (c_id e) = Some (own_time e)"
    using join_clock_peer[OF d', of _ ?rid "c_id cl"] p by simp
  show ?thesis
    using handleJoin_client[OF r, of now ws cl] k v join_clock_self[of ?rid "c_id cl" ?cs]
    by blast
qed


theorem handleJoin_clock_witness:
  "map_of (clients ex_server) 2 = Some (ex_client ''J'') \<and>
   map_of (rooms ex_server) (str_or (jd_roomId ex_join) ''main'') = Some ex_room \<and>
   distinct (map (\<lambda>p. c_id (snd p)) (clients ex_server)) \<and>
   (\<exists>vc. map_option c_vectorClock
            (map_of (clients (handleJoin 100 2 (ex_client ''J'') ex_join ex_server)) 2)
                 = Some (Some vc)
     \<and> fst ` set vc = insert (c_id (ex_client ''J''))
          (c_id ` set (room_peers (str_or (jd_roomId ex_join) ''main'') (c_id (ex_client ''J''))
                         (clients ex_server)))
     \<and> map_of vc (c_id (ex_client ''J'')) = Some 0
     \<and> (\<forall>e \<in> set (room_peers (str_or (jd_roomId ex_join) ''main'') (c_id (ex_client ''J''))
                       (clients ex_server)).
           map_of vc (c_id e) = Some (own_time e)))"
proof -
  have h1: "map_of (clients ex_server) 2 = Some (ex_client ''J'')"
    by (simp add: ex_server_def)
  have h2: "map_of (rooms ex_server) (str_or (jd_roomId ex_join) ''main'') = Some ex_room"
    by (simp add: ex_server_def ex_join_def str_or_def)
  have h3: "distinct (map (\<lambda>p. c_id (snd p)) (clients ex_server))"
    by (simp add: ex_server_def ex_client_def)
  from handleJoin_clock[OF h1 h2 h3, of 100] h1 h2 h3 show ?thesis by blast
qed

subsection \<open>Handling a chat frame\<close>

lemma rooms_handleChat: "rooms (handleChat now mid ws cl data this) = rooms this"
  by (simp add: handleChat_def Let_def updateUserStats_messagesSent_def broadcastToRoom_def
      split: option.splits)

lemma room_history_broadcastToRoom:
  "room_history (broadcastToRoom r f x s) r' = room_history s r'"
  by (simp add: broadcastToRoom_def room_history_def split: option.splits)

lemma room_history_updateUserStats:
  "room_history (updateUserStats_messagesSent u s) r = room_history s r"
  by (simp add: updateUserStats_messagesSent_def room_history_def Let_def)

lemma handleChat_history_eq:
  assumes "map_of (rooms this) (c_roomId cl) = Some r"
  shows "room_history (handleChat now mid ws cl data this) (c_roomId cl)
       = room_history this (c_roomId cl) @ [stamp_message now mid cl data]"
proof -
  let ?s2 = "this\<lparr>clients := AList.update ws (cl\<lparr>c_vectorClock := Some (sender_clock cl)\<rparr>) (clients this),
      messageHistory := AList.update (c_roomId cl)
         (room_history this (c_roomId cl) @ [stamp_message now mid cl data]) (messageHistory this)\<rparr>"
  have h2: "room_history ?s2 (c_roomId cl)
      = room_history this (c_roomId cl) @ [stamp_message now mid cl data]"
    by (simp add: room_history_def update_conv')
  have e: "room_history (this\<lparr>clients := x\<rparr>) (c_roomId cl) = room_history this (c_roomId cl)" for x
    by (simp add: room_history_def)
  show ?thesis
  proof (cases "simulateDelay (cm_metadata (stamp_message now mid cl data))")
    case True
    have "room_history (handleChat now mid ws cl data this) (c_roomId cl)
        = room_history (updateUserStats_messagesSent (c_id cl) ?s2) (c_roomId cl)"
      using assms True by (simp add: handleChat_def Let_def e room_history_def)
    then show ?thesis using h2 by (simp add: room_history_updateUserStats)
  next
    case False
    have "room_history (handleChat now mid ws cl data this) (c_roomId cl)
        = room_history (broadcastToRoom (c_roomId cl) (FChat (stamp_message now mid cl data)) (Some ws)
             (updateUserStats_messagesSent (c_id cl) ?s2)) (c_roomId cl)"
      using assms False by (simp add: handleChat_def Let_def e room_history_def)
    then show ?thesis using h2
      by (simp add: room_history_updateUserStats room_history_broadcastToRoom)
  qed
qed

lemma sender_clock_own: "get_or0 (sender_clock cl) (c_id cl) = own_time cl + 1"
  by (simp add: sender_clock_def own_time_def get_or0_def update_conv' Let_def
      split: option.splits)

lemma sendHistory_reply:
  "\<exists>ms older. sent (sendHistory ws cl this) =
       sent this @ [(ws, FHistory ms (length (room_history this (c_roomId cl))))]
     \<and> length ms = min 50 (length (room_history this (c_roomId cl)))
     \<and> room_history this (c_roomId cl) = older @ ms"
proof -
  let ?h = "room_history this (c_roomId cl)"
  have a: "sent (sendHistory ws cl this) =
       sent this @ [(ws, FHistory (drop (length ?h - 50) ?h) (length ?h))]"
    by (simp add: sendHistory_def Let_def)
  have b: "length (drop (length ?h - 50) ?h) = min 50 (length ?h)" by auto
  have c: "?h = take (length ?h - 50) ?h @ drop (length ?h - 50) ?h" by simp
  from a b c show ?thesis by blast
qed

text \<open>
  \<open>J\<close> joins and sends a chat frame with \<open>simulateDelay = true\<close> and \<open>delayMs = 0\<close>:
  the broadcast is scheduled with a delay of 1000 milliseconds, not 0.
\<close>

theorem handleChat_delay_counterexample:
  "map t_delay (timers (handleMessage 200 ''u1'' 2 (Chat (ex_chat True (Some 0))) ex_joined))
     = [1000] \<and>
   cf_metadata (ex_chat True (Some 0)) = Some \<lparr>simulateDelay = True, delayMs = Some 0\<rparr>"
  by code_simp

text \<open>
  Claim C8, as amended: for every inbound chat frame of a session in an existing room
  whose metadata contains \<open>simulateDelay = true\<close> with \<open>delayMs = D\<close>, the broadcast of
  the resulting message is handed to a timer of \<open>D\<close> milliseconds, and of 1000
  milliseconds when \<open>D\<close> is 0, while the sender's clock increment, the append to the
  room's history and the \<open>message_delivered\<close> acknowledgement to the sender are performed
  in the handler itself: when the handler returns, the acknowledgement is the only frame
  sent, and the deferred broadcast, when its timer fires, follows it.
\<close>

theorem handleChat_simulated_delay:
  assumes "map_of (rooms this) (c_roomId cl) = Some r"
      and "cf_metadata data = Some md" and "simulateDelay md" and "delayMs md = Some D"
  shows "timers (handleChat now mid ws cl data this)
           = timers this @ [\<lparr>t_delay = (if D = 0 then 1000 else D), t_roomId = c_roomId cl,
                             t_message = stamp_message now mid cl data, t_excludeWs = ws\<rparr>]
     \<and> sent (handleChat now mid ws cl data this) = sent this @ [(ws, FMessageDelivered mid now)]
     \<and> room_history (handleChat now mid ws cl data this) (c_roomId cl)
         = room_history this (c_roomId cl) @ [stamp_message now mid cl data]
     \<and> get_or0 (cm_vectorClock (stamp_message now mid cl data)) (c_id cl) = own_time cl + 1
     \<and> map_of (clients (handleChat now mid ws cl data this)) ws
         = Some (cl\<lparr>c_vectorClock := Some (cm_vectorClock (stamp_message now mid cl data))\<rparr>)
     \<and> sent (fire_timer \<lparr>t_delay = (if D = 0 then 1000 else D), t_roomId = c_roomId cl,
                          t_message = stamp_message now mid cl data, t_excludeWs = ws\<rparr>
               (handleChat now mid ws cl data this))
         = sent this @ (ws, FMessageDelivered mid now)
             # map (\<lambda>(w, c). (w, FChat (stamp_message now mid cl data)))
                 (filter (\<lambda>(w, c). c_roomId c = c_roomId cl \<and> w \<noteq> ws \<and> c_readyState c = 1)
                    (clients (handleChat now mid ws cl data this)))"
proof -
  have md: "cm_metadata (stamp_message now mid cl data) = md"
    using assms(2) by (simp add: stamp_message_def)
  have vc: "cm_vectorClock (stamp_message now mid cl data) = sender_clock cl"
    by (simp add: stamp_message_def)
  have t: "timers (handleChat now mid ws cl data this)
           = timers this @ [\<lparr>t_delay = (if D = 0 then 1000 else D), t_roomId = c_roomId cl,
                             t_message = stamp_message now mid cl data, t_excludeWs = ws\<rparr>]"
    using assms md
    by (simp add: handleChat_def Let_def timeout_delay_def updateUserStats_messagesSent_def)
  have s: "sent (handleChat now mid ws cl data this) = sent this @ [(ws, FMessageDelivered mid now)]"
    using assms md by (simp add: handleChat_def Let_def updateUserStats_messagesSent_def)
  have c: "map_of (clients (handleChat now mid ws cl data this)) ws
         = Some (cl\<lparr>c_vectorClock := Some (sender_clock cl)\<rparr>)"
    using assms md
    by (simp add: handleChat_def Let_def updateUserStats_messagesSent_def update_conv')
  have f: "sent (fire_timer \<lparr>t_delay = (if D = 0 then 1000 else D), t_roomId = c_roomId cl,
                          t_message = stamp_message now mid cl data, t_excludeWs = ws\<rparr>
               (handleChat now mid ws cl data this))
         = sent (handleChat now mid ws cl data this)
             @ map (\<lambda>(w, c). (w, FChat (stamp_message now mid cl data)))
                 (filter (\<lambda>(w, c). c_roomId c = c_roomId cl \<and> w \<noteq> ws \<and> c_readyState c = 1)
                    (clients (handleChat now mid ws cl data this)))"
    using assms(1) by (simp add: fire_timer_def broadcastToRoom_def rooms_handleChat)
  show ?thesis
    using t s c f handleChat_history_eq[OF assms(1), of now mid ws data] sender_clock_own[of cl] vc
    by simp
qed

theorem handleChat_simulated_delay_witness:
  "map_of (rooms ex_joined) (c_roomId (ex_client ''J'')) = Some (ex_room\<lparr>room_users := [''J'']\<rparr>) \<and>
   cf_metadata (ex_chat True (Some 250)) = Some \<lparr>simulateDelay = True, delayMs = Some 250\<rparr> \<and>
   simulateDelay \<lparr>simulateDelay = True, delayMs = Some 250\<rparr> \<and>
   delayMs \<lparr>simulateDelay = True, delayMs = Some 250\<rparr> = Some 250 \<and>
   timers (handleChat 200 ''u1'' 2 (ex_client ''J'') (ex_chat True (Some 250)) ex_joined)
        = timers ex_joined @ [\<lparr>t_delay = 250, t_roomId = c_roomId (ex_client ''J''),
             t_message = stamp_message 200 ''u1'' (ex_client ''J'') (ex_chat True (Some 250)),
             t_excludeWs = 2\<rparr>] \<and>
   sent (handleChat 200 ''u1'' 2 (ex_client ''J'') (ex_chat True (Some 250)) ex_joined)
        = sent ex_joined @ [(2, FMessageDelivered ''u1'' 200)]"
proof -
  have h1: "map_of (rooms ex_joined) (c_roomId (ex_client ''J''))
      = Some (ex_room\<lparr>room_users := [''J'']\<rparr>)"
    by code_simp
  have h2: "cf_metadata (ex_chat True (Some 250)) = Some \<lparr>simulateDelay = True, delayMs = Some 250\<rparr>"
    by (simp add: ex_chat_def)
  have h3: "simulateDelay \<lparr>simulateDelay = True, delayMs = Some 250\<rparr>" by simp
  have h4: "delayMs \<lparr>simulateDelay = True, delayMs = Some 250\<rparr> = Some 250" by simp
  from handleChat_simulated_delay[OF h1 h2 h3 h4, of 200 "''u1''" 2] h1 h2 h3 h4
  show ?thesis by simp
qed

subsection \<open>The history window\<close>

text \<open>
  \<open>J\<close> joins and sends 51 chat frames: the room's history holds 51 messages, and the
  reply to \<open>request_history\<close> carries 50 of them with the total 51.
\<close>

theorem history_window_counterexample:
  "length (room_history (chat_n 51 ex_joined) ''main'') = 51 \<and>
   (case last (sent (handleMessage 300 ''u'' 2 RequestHistory (chat_n 51 ex_joined))) of
      (w, FHistory ms n) \<Rightarrow> length ms = 50 \<and> n = 51
    | _ \<Rightarrow> False)"
  by code_simp

text \<open>
  Claim C9, as amended: the room's history is never trimmed. Every chat message handled
  for a session in an existing room is appended to the room's history and none is
  dropped, so the history holds all messages of the room, more than 50 when more were
  sent; and every \<open>request_history\<close> frame is answered with the last 50 messages of that
  history, all of them when there are fewer, together with the total count of the
  messages held.
\<close>

theorem history_unbounded_last_50_served:
  assumes "map_of (rooms this) (c_roomId cl) = Some r"
  shows "room_history (handleChat now mid ws cl data this) (c_roomId cl)
           = room_history this (c_roomId cl) @ [stamp_message now mid cl data] \<and>
         (\<exists>ms older. sent (sendHistory ws' cl' this') =
              sent this' @ [(ws', FHistory ms (length (room_history this' (c_roomId cl'))))]
            \<and> length ms = min 50 (length (room_history this' (c_roomId cl')))
            \<and> room_history this' (c_roomId cl') = older @ ms)"
  using handleChat_history_eq[OF assms, of now mid ws data] sendHistory_reply[of ws' cl' this']
  by blast

theorem history_unbounded_last_50_served_witness:
  "map_of (rooms ex_joined) (c_roomId (ex_client ''J'')) = Some (ex_room\<lparr>room_users := [''J'']\<rparr>) \<and>
   room_history (handleChat 200 ''u1'' 2 (ex_client ''J'') (ex_chat False None) ex_joined)
        (c_roomId (ex_client ''J''))
     = room_history ex_joined (c_roomId (ex_client ''J''))
         @ [stamp_message 200 ''u1'' (ex_client ''J'') (ex_chat False None)] \<and>
   (\<exists>ms older. sent (sendHistory 2 (ex_client ''J'') (chat_n 51 ex_joined)) =
        sent (chat_n 51 ex_joined)
          @ [(2, FHistory ms (length (room_history (chat_n 51 ex_joined) (c_roomId (ex_client ''J'')))))]
      \<and> length ms = min 50 (length (room_history (chat_n 51 ex_joined) (c_roomId (ex_client ''J''))))
      \<and> room_history (chat_n 51 ex_joined) (c_roomId (ex_client ''J'')) = older @ ms)"
proof -
  have h: "map_of (rooms ex_joined) (c_roomId (ex_client ''J''))
      = Some (ex_room\<lparr>room_users := [''J'']\<rparr>)"
    by code_simp
  from history_unbounded_last_50_served[OF h, of 200 "''u1''" 2 "ex_chat False None"
      2 "ex_client ''J''" "chat_n 51 ex_joined"] h
  show ?thesis by blast
qed


end
